theory Spec2Isabelle
  imports Complex_Main
begin

section \<open>Data model of \<open>Camera_cv.py\<close>\<close>

text \<open>
  The class \<open>Camera\<close> is embedded as a record of its attributes, every method as a
  function from the record to the updated record. Each \<open>mutex.lock()\<close> ...
  \<open>mutex.unlock()\<close> section is one state update: the model follows a single thread of
  control, and what the other threads do (the consumer that writes frames out, the actor
  that flips the flags) enters as explicit input.

  Numpy arrays are mutable and shared by reference (\<open>self.empty_frame = frame\<close> followed
  by \<open>cv2.putText(frame, ...)\<close> changes both), so frames live in a store: a list of
  images, an address being an index into it. Exceptions are values: a method that may
  raise returns a sum, \<open>Inl\<close> for the exception.
\<close>

datatype error = AttributeError | TypeError | ValueError | CvError

datatype colorspace = BGR | RGB | GRAY | ZEROS

text \<open>
  An array as far as the code looks at it: its shape (\<open>channels = 1\<close> stands for a
  two-dimensional array), whether its memory is contiguous (a slice such as
  \<open>a[:, :, 0]\<close> is a view with gaps), the colour space of its content, an abstract
  tag for the pixel content, and the texts \<open>cv2.putText\<close> has burnt into it, oldest
  first.
\<close>

record image =
  rows :: int
  cols :: int
  channels :: nat
  contiguous :: bool
  space :: colorspace
  content :: nat
  overlay :: "(string \<times> int \<times> int) list"

type_synonym addr = nat

text \<open>What \<open>cv2.VideoCapture.get\<close> reports, after \<open>int(...)\<close>.\<close>

record device =
  dev_width :: int
  dev_height :: int
  dev_fps :: int

text \<open>
  Modelled from the spec: the class \<open>VideoRecording\<close> (module \<open>VideoRecording\<close>, not
  part of the sources at hand). Section 6 of the specification gives its interface:
  \<open>open(owner, save_dir, name, file_index, resolution, rate, color)\<close>,
  \<open>write\<close>, \<open>write_count() -> integer\<close> and \<open>close()\<close>. The record keeps the
  arguments of the constructor, whether \<open>isOpened()\<close> holds and the write count.
\<close>

record recorder =
  rec_dir :: string
  rec_name :: string
  rec_counter :: nat
  rec_resolution :: "int \<times> int"
  rec_rate :: rat
  rec_color :: bool
  opened :: bool
  write_count :: nat

datatype thread = Running | Finished

text \<open>
  The attributes of \<open>Camera\<close>. \<open>continuous\<close> is not assigned in \<open>__init__\<close>: it is
  \<open>None\<close> until \<open>start_capture\<close>, \<open>stop_capture\<close> or \<open>stop_recording\<close> creates it.
  \<open>recordingThread\<close> is \<open>None\<close> both before \<open>new_recording\<close> creates it and after
  \<open>stop_saving\<close> resets it. \<open>connected\<close> says that \<open>sig_new_frame\<close> is connected to
  \<open>recording.write\<close>. Timestamps are \<open>datetime\<close> values, held as microseconds.
  The last five fields collect what the object emits: the number of \<open>sig_new_frame\<close>
  emissions, the payloads of \<open>sig_raise_error\<close> and \<open>sig_set_timestamp\<close>, the
  warnings and the printed lines. The attributes \<open>filename\<close>, \<open>name\<close>,
  \<open>device_no\<close> and \<open>post_processor\<close> are read by no method and are left out.
\<close>

record camera =
  triggered :: bool
  capture :: "device option"
  recording :: "recorder option"
  width :: int
  height :: int
  framerate :: rat
  color :: bool
  saving :: bool
  continuous :: "bool option"
  frame_dts :: "int list"
  recframes :: "(addr \<times> string) list"
  dispframe :: "(addr \<times> int \<times> rat) option"
  empty_frame :: addr
  heap :: "image list"
  recordingThread :: "thread option"
  connected :: bool
  new_frame_signals :: nat
  raised_errors :: "string list"
  set_timestamps :: "string list"
  warnings :: "string list"
  stdout :: "string list"

text \<open>
  What one call of \<open>grab_frame\<close> reads from outside: the result \<open>(flag, frame)\<close> of
  \<open>capture.read()\<close> (\<open>raw = None\<close> when no frame came), \<open>datetime.now()\<close>, and
  \<open>control.options.remote\<close> with the text \<open>str(control.main.remote_layout.speed)\<close>
  (\<open>remote = None\<close> when the option is off). \<open>stop_request\<close> says that another thread
  calls \<open>stop_capture\<close> while this iteration runs.
\<close>

record event =
  flag :: bool
  raw :: "image option"
  dtime :: int
  remote :: "string option"
  stop_request :: bool

text \<open>
  The two timestamp formats: \<open>dtime.strftime("%Y-%m-%d %H:%M:%S")\<close> and
  \<open>'{:.10f}\n'.format(date2num(dtime))\<close>. Both are functions of the timestamp alone;
  the second goes through floating point, so both are parameters.
\<close>

record formats =
  strftime :: "int \<Rightarrow> string"
  date2num_str :: "int \<Rightarrow> string"

section \<open>Construction\<close>

text \<open>
  \<open>__init__\<close>: \<open>np.zeros((height, width, 3))\<close>, cut down to its first channel
  when \<open>self.color\<close> holds; the slice \<open>[:, :, 0]\<close> is a view of every third
  element, so it is not contiguous. \<open>open()\<close> always assigns \<open>capture\<close>.
\<close>

definition zeros :: "int \<Rightarrow> int \<Rightarrow> image" where
  "zeros h w =
    \<lparr>rows = h, cols = w, channels = 3, contiguous = True, space = ZEROS, content = 0,
     overlay = []\<rparr>"

definition first_channel :: "image \<Rightarrow> image" where
  "first_channel img = img\<lparr>channels := 1, contiguous := False\<rparr>"

definition init :: "int \<Rightarrow> int \<Rightarrow> rat \<Rightarrow> bool \<Rightarrow> device \<Rightarrow> camera" where
  "init w h fps col dev =
    \<lparr>triggered = False, capture = Some dev, recording = None,
     width = w, height = h, framerate = fps, color = col,
     saving = False, continuous = None,
     frame_dts = [], recframes = [], dispframe = None,
     empty_frame = 0,
     heap = [if col then first_channel (zeros h w) else zeros h w],
     recordingThread = None, connected = False,
     new_frame_signals = 0, raised_errors = [], set_timestamps = [],
     warnings = [], stdout = []\<rparr>"

section \<open>The rolling frame rate\<close>

text \<open>
  The block \<open># calculate framerate\<close> of \<open>grab_frame\<close>: append, drop the oldest entry
  above 100, then \<open>len(frame_dts) / dur if dur > 0 else 0\<close> with \<open>dur\<close> the seconds
  between the first and the last entry. The rate is kept as an exact rational; Python
  rounds it to a float.
\<close>

definition record_dt :: "int \<Rightarrow> int list \<Rightarrow> int list" where
  "record_dt t dts = (let dts' = dts @ [t] in if length dts' > 100 then tl dts' else dts')"

definition current_rate :: "int list \<Rightarrow> rat" where
  "current_rate dts =
    (if length dts > 1 then
       (let dur = last dts - hd dts in
        if dur > 0 then of_nat (length dts) / (of_int dur / 1000000) else 0)
     else 0)"

section \<open>Post-processing and overlay\<close>

text \<open>
  \<open>cv2.cvtColor\<close> raises on \<open>None\<close> and on an array that has neither three nor four
  channels; otherwise it returns a new, contiguous array.
\<close>

definition cvtColor :: "bool \<Rightarrow> image option \<Rightarrow> error + image" where
  "cvtColor col fr =
    (case fr of
       None \<Rightarrow> Inl CvError
     | Some img \<Rightarrow>
         if channels img = 3 \<or> channels img = 4 then
           Inr (img\<lparr>channels := (if col then 3 else 1), contiguous := True,
                    space := (if col then RGB else GRAY)\<rparr>)
         else Inl CvError)"

definition brg2rgb :: "image option \<Rightarrow> error + image" where
  "brg2rgb fr = cvtColor True fr"

definition brg2grayscale :: "image option \<Rightarrow> error + image" where
  "brg2grayscale fr = cvtColor False fr"

definition deref :: "image list \<Rightarrow> addr \<Rightarrow> image option" where
  "deref h a = (if a < length h then Some (h ! a) else None)"

text \<open>
  The \<open>try\<close> block of \<open>grab_frame\<close>: on success the converted array is new and
  \<open>empty_frame\<close> refers to it; in the \<open>except\<close> branch the frame is the array
  \<open>empty_frame\<close> refers to. The result is the frame's address and the new state.
\<close>

definition post_process :: "event \<Rightarrow> camera \<Rightarrow> addr \<times> camera" where
  "post_process ev s =
    (case (if color s then brg2rgb (raw ev) else brg2grayscale (raw ev)) of
       Inr img \<Rightarrow> (length (heap s), s\<lparr>heap := heap s @ [img], empty_frame := length (heap s)\<rparr>)
     | Inl e \<Rightarrow> (empty_frame s, s))"

text \<open>
  \<open>cv2.putText\<close> draws into the array it is given, in place. It takes the array as
  an output argument and refuses one whose memory is not contiguous: the call raises
  (\<open>Layout of the output array img is incompatible with cv::Mat\<close>) and draws nothing.
  \<open>burn\<close> is the drawing itself.
\<close>

definition burn :: "string \<Rightarrow> int \<Rightarrow> int \<Rightarrow> image \<Rightarrow> image" where
  "burn txt x y img = img\<lparr>overlay := overlay img @ [(txt, x, y)]\<rparr>"

definition putText :: "string \<Rightarrow> int \<Rightarrow> int \<Rightarrow> image \<Rightarrow> error + image" where
  "putText txt x y img = (if contiguous img then Inr (burn txt x y img) else Inl CvError)"

text \<open>
  \<open>write_to_frame\<close> passes the array at the address to \<open>cv2.putText\<close>. The positions
  are \<open>int(0.05 * width)\<close> and the like, written with integer division at the calls.
  Every address the methods hand on lies inside the store; an address outside it is
  treated like an object \<open>cv2.putText\<close> refuses.
\<close>

definition write_to_frame :: "addr \<Rightarrow> string \<Rightarrow> int \<Rightarrow> int \<Rightarrow> camera \<Rightarrow> error + camera" where
  "write_to_frame frm txt where_x where_y s =
    (case deref (heap s) frm of
       None \<Rightarrow> Inl CvError
     | Some img \<Rightarrow>
         (case putText txt where_x where_y img of
            Inl e \<Rightarrow> Inl e
          | Inr img' \<Rightarrow> Inr (s\<lparr>heap := (heap s)[frm := img']\<rparr>)))"

section \<open>The capture step\<close>

definition is_saving :: "camera \<Rightarrow> bool" where
  "is_saving s = saving s"

text \<open>
  A method that changes the camera and may raise: \<open>Inr\<close> carries the state at the
  return, \<open>Inl\<close> the exception with the state at the moment it is raised.
  \<open>state_of\<close> is the state the call leaves behind either way.
\<close>

type_synonym outcome = "error \<times> camera + camera"

definition state_of :: "outcome \<Rightarrow> camera" where
  "state_of r = (case r of Inl (e, s) \<Rightarrow> s | Inr s \<Rightarrow> s)"

text \<open>
  \<open>grab_frame\<close> after \<open>capture.read()\<close> has returned: rate, post-processing, the
  overlays, then the early return on \<open>not flag\<close>, else the display slot and, while
  saving, the record queue and the signal. The two calls of \<open>write_to_frame\<close> stand
  outside the \<open>try\<close> block and before the test of \<open>flag\<close>: what they raise leaves
  \<open>grab_frame\<close>.
\<close>

definition grab_frame_body :: "formats \<Rightarrow> event \<Rightarrow> camera \<Rightarrow> outcome" where
  "grab_frame_body fmt ev s =
    (let s1 = s\<lparr>frame_dts := record_dt (dtime ev) (frame_dts s)\<rparr>;
         fr = current_rate (frame_dts s1);
         (frame, s2) = post_process ev s1
     in case write_to_frame frame (strftime fmt (dtime ev))
               (width s2 div 20) (height s2 div 20) s2 of
          Inl e \<Rightarrow> Inl (e, s2)
        | Inr s3 \<Rightarrow>
            (case (case remote ev of
                     None \<Rightarrow> Inr s3
                   | Some speed \<Rightarrow>
                       write_to_frame frame (speed @ '' m/s'')
                         (17 * width s3 div 20) (height s3 div 20) s3) of
               Inl e \<Rightarrow> Inl (e, s3)
             | Inr s4 \<Rightarrow>
                 if \<not> flag ev then
                   Inr (s4\<lparr>warnings := warnings s4 @ [''Couldn't grab frame from camera!'']\<rparr>)
                 else
                   (let s5 = s4\<lparr>dispframe := Some (frame, dtime ev, fr)\<rparr>
                    in if is_saving s5 then
                         Inr (s5\<lparr>recframes :=
                                   recframes s5 @ [(frame, date2num_str fmt (dtime ev))],
                                 new_frame_signals := new_frame_signals s5 + 1\<rparr>)
                       else Inr s5)))"

text \<open>
  \<open>grab_frame\<close> itself: \<open>self.capture.read()\<close> needs a capture object.
\<close>

definition grab_frame :: "formats \<Rightarrow> event \<Rightarrow> camera \<Rightarrow> outcome" where
  "grab_frame fmt ev s =
    (case capture s of
       None \<Rightarrow> Inl (AttributeError, s)
     | Some dev \<Rightarrow> grab_frame_body fmt ev s)"

section \<open>The display slot and the record queue\<close>

text \<open>
  \<open>get_dispframe\<close> reads the slot inside the critical section and clears it after
  \<open>unlock\<close>; in one thread of control that is a read followed by the reset.
\<close>

definition get_dispframe :: "camera \<Rightarrow> (addr \<times> int \<times> rat) option \<times> camera" where
  "get_dispframe s = (let dispframe' = dispframe s in (dispframe', s\<lparr>dispframe := None\<rparr>))"

definition get_recframe :: "camera \<Rightarrow> (addr \<times> string) option \<times> camera" where
  "get_recframe s =
    (case recframes s of
       recframe # rest \<Rightarrow> (Some recframe, s\<lparr>recframes := rest\<rparr>)
     | [] \<Rightarrow> (None, s))"

definition get_recframesize :: "camera \<Rightarrow> nat" where
  "get_recframesize s = length (recframes s)"

text \<open>
  Reading the queue to completion: \<open>get_recframe\<close> until it returns \<open>None\<close>. The
  result is what was read, in the order read, and the state left behind.
\<close>

function read_all :: "camera \<Rightarrow> (addr \<times> string) list \<times> camera" where
  "read_all s =
    (case get_recframe s of
       (None, s') \<Rightarrow> ([], s')
     | (Some recframe, s') \<Rightarrow> (let (rest, s'') = read_all s' in (recframe # rest, s'')))"
  by pat_completeness auto
termination
  by (relation "measure (\<lambda>s. length (recframes s))")
     (auto simp: get_recframe_def split: list.splits)

declare read_all.simps [simp del]

section \<open>Queries of the capture device\<close>

definition get_resolution :: "camera \<Rightarrow> error + int \<times> int" where
  "get_resolution s =
    (case capture s of
       Some dev \<Rightarrow> Inr (dev_width dev, dev_height dev)
     | None \<Rightarrow> Inl ValueError)"

definition get_fps :: "camera \<Rightarrow> error + int" where
  "get_fps s =
    (case capture s of
       Some dev \<Rightarrow> Inr (dev_fps dev)
     | None \<Rightarrow> Inl ValueError)"

section \<open>The flags and the capture loop\<close>

text \<open>\<open>is_recording\<close> reads an attribute that may not exist yet.\<close>

definition is_recording :: "camera \<Rightarrow> error + bool" where
  "is_recording s = (case continuous s of None \<Rightarrow> Inl AttributeError | Some c \<Rightarrow> Inr c)"

definition stop_recording :: "camera \<Rightarrow> camera" where
  "stop_recording s = s\<lparr>continuous := Some False\<rparr>"

definition stop_capture :: "camera \<Rightarrow> camera" where
  "stop_capture s = s\<lparr>continuous := Some False\<rparr>"

definition start_saving :: "camera \<Rightarrow> camera" where
  "start_saving s = s\<lparr>saving := True\<rparr>"

text \<open>
  \<open>while self.is_recording(): self.grab_frame()\<close> over the events of a finite
  observation. The loop has returned, has been left by an exception, or is still running
  when the observed events end; each case carries the state of the camera at that moment.
\<close>

datatype 'a run = Returned 'a | Raised error 'a | Pending 'a

fun capture_loop :: "formats \<Rightarrow> event list \<Rightarrow> camera \<Rightarrow> camera run" where
  "capture_loop fmt [] s = Pending s"
| "capture_loop fmt (ev # evs) s =
    (case is_recording s of
       Inl e \<Rightarrow> Raised e s
     | Inr c \<Rightarrow>
         if c then
           (case grab_frame fmt ev s of
              Inl (e, s') \<Rightarrow> Raised e s'
            | Inr s' \<Rightarrow> capture_loop fmt evs (if stop_request ev then stop_capture s' else s'))
         else Returned s)"

definition start_capture :: "formats \<Rightarrow> event list \<Rightarrow> camera \<Rightarrow> camera run" where
  "start_capture fmt evs s = capture_loop fmt evs (s\<lparr>continuous := Some True\<rparr>)"

text \<open>A run of calls of \<open>grab_frame\<close>, stopping at the first that raises.\<close>

fun grab_frames :: "formats \<Rightarrow> event list \<Rightarrow> camera \<Rightarrow> outcome" where
  "grab_frames fmt [] s = Inr s"
| "grab_frames fmt (ev # evs) s =
    (case grab_frame fmt ev s of
       Inl (e, s') \<Rightarrow> Inl (e, s')
     | Inr s' \<Rightarrow> grab_frames fmt evs s')"

section \<open>Starting a recording\<close>

text \<open>
  \<open>new_recording\<close>. \<open>open_ok\<close> is what \<open>isOpened()\<close> of the new
  \<open>VideoRecording\<close> object answers. The result is the returned value (\<open>False\<close>, or
  nothing at the end of the body) and the state; \<open>get_resolution\<close> may raise before the
  object is built.
\<close>

definition new_recording ::
  "bool \<Rightarrow> string \<Rightarrow> string \<Rightarrow> nat \<Rightarrow> rat \<Rightarrow> camera \<Rightarrow> error + bool option \<times> camera" where
  "new_recording open_ok save_dir cam_name file_counter framerate0 s =
    (let (framerate', s1) =
           (if \<not> triggered s then
              (case get_dispframe s of
                 (Some (frame, dt, fr), s') \<Rightarrow> (fr, s')
               | (None, s') \<Rightarrow>
                   (framerate s',
                    s'\<lparr>stdout := stdout s' @ [''FPS was not successfully read out and set'']\<rparr>))
            else (framerate0, s))
     in case get_resolution s1 of
          Inl e \<Rightarrow> Inl e
        | Inr res \<Rightarrow>
            (let rec = \<lparr>rec_dir = save_dir, rec_name = cam_name, rec_counter = file_counter,
                        rec_resolution = res, rec_rate = framerate', rec_color = color s1,
                        opened = open_ok, write_count = 0\<rparr>;
                 s2 = s1\<lparr>recording := Some rec\<rparr>
             in if \<not> opened rec then
                  Inr (Some False,
                       s2\<lparr>raised_errors :=
                            raised_errors s2 @ [''Video-recording could not be started.'']\<rparr>)
                else
                  Inr (None, s2\<lparr>recordingThread := Some Running, connected := True\<rparr>)))"

section \<open>Stopping a recording\<close>

text \<open>Decimal digits of a number, as \<open>'{}'.format\<close> and \<open>print\<close> write an integer.\<close>

function str_nat :: "nat \<Rightarrow> string" where
  "str_nat n =
    (if n < 10 then [''0123456789'' ! n]
     else str_nat (n div 10) @ [''0123456789'' ! (n mod 10)])"
  by pat_completeness auto
termination
  by (relation "measure id") auto

declare str_nat.simps [simp del]

definition get_write_count :: "camera \<Rightarrow> error + nat" where
  "get_write_count s =
    (case recording s of None \<Rightarrow> Inl AttributeError | Some rec \<Rightarrow> Inr (write_count rec))"

text \<open>
  Modelled from the spec: \<open>VideoRecording.write\<close>, the consumer, which is not part of
  the sources at hand. By sections 3 and 4.3 of the specification it removes the front
  element of the record queue (through \<open>get_recframe\<close>) and the write count is the number
  of frames written. \<open>consume n\<close> is \<open>n\<close> such writes.
\<close>

definition recorder_write :: "camera \<Rightarrow> camera" where
  "recorder_write s =
    (case get_recframe s of
       (None, s') \<Rightarrow> s'
     | (Some recframe, s') \<Rightarrow>
         s'\<lparr>recording :=
              map_option (\<lambda>rec. rec\<lparr>write_count := write_count rec + 1\<rparr>) (recording s')\<rparr>)"

fun consume :: "nat \<Rightarrow> camera \<Rightarrow> camera" where
  "consume 0 s = s"
| "consume (Suc n) s = consume n (recorder_write s)"

text \<open>
  The \<open>while\<close> loop of \<open>stop_saving\<close>. \<open>last_count\<close> (the source's \<open>last\<close>) and \<open>double_counter\<close>
  are the local variables, \<open>triggered_frames\<close> is the constant 0 of the source. The consumer
  runs in another thread: \<open>consumer k\<close> is the number of frames it writes during the
  \<open>k\<close>-th \<open>msleep(100)\<close>. \<open>fuel\<close> bounds the number of polls; \<open>None\<close> says that
  the loop is still running when the fuel is used up.
\<close>

definition triggered_frames :: nat where
  "triggered_frames = 0"

fun drain ::
  "(nat \<Rightarrow> nat) \<Rightarrow> nat \<Rightarrow> nat \<Rightarrow> nat \<Rightarrow> int \<Rightarrow> camera \<Rightarrow> (error + camera) option" where
  "drain consumer 0 k last_count double_counter s = None"
| "drain consumer (Suc fuel) k last_count double_counter s =
    (if get_recframesize s > 0 then
       (case get_write_count s of
          Inl e \<Rightarrow> Some (Inl e)
        | Inr wc \<Rightarrow>
            (let s1 = s\<lparr>stdout := stdout s @
                        [''Writing: '' @ str_nat wc @ '' of '' @ str_nat triggered_frames,
                         str_nat (get_recframesize s)]\<rparr>;
                 double_counter' = (if last_count = wc then double_counter + 1 else double_counter)
             in if double_counter' = 10 then
                  Some (Inr (s1\<lparr>raised_errors :=
                                  raised_errors s1 @ [''Frames cannot be saved.'']\<rparr>))
                else drain consumer fuel (Suc k) last_count double_counter' (consume (consumer k) s1)))
     else Some (Inr s))"

declare drain.simps [simp del]

text \<open>
  \<open>stop_saving\<close>. \<open>now\<close> is \<open>datetime.now().strftime("%Y-%m-%d  %H:%M:%S")\<close>.
  \<open>self.recording.write\<close> raises when there is no recording, and \<open>disconnect\<close>
  raises when the slot is not connected.
\<close>

definition stop_saving ::
  "string \<Rightarrow> (nat \<Rightarrow> nat) \<Rightarrow> nat \<Rightarrow> camera \<Rightarrow> (error + camera) option" where
  "stop_saving now consumer fuel s =
    (let s1 = s\<lparr>saving := False\<rparr>
     in case recording s1 of
          None \<Rightarrow> Some (Inl AttributeError)
        | Some rec \<Rightarrow>
            if \<not> connected s1 then Some (Inl TypeError)
            else
              (let s2 = s1\<lparr>connected := False\<rparr>;
                   last_count = write_count rec
               in case drain consumer fuel 0 last_count (- 1) s2 of
                    None \<Rightarrow> None
                  | Some (Inl e) \<Rightarrow> Some (Inl e)
                  | Some (Inr s3) \<Rightarrow>
                      (case get_write_count s3 of
                         Inl e \<Rightarrow> Some (Inl e)
                       | Inr wc \<Rightarrow>
                           (let txt = now @ [CHR '' '', CHR 0x09, CHR '' ''] @
                                  ''All frames written: '' @
                                  str_nat wc @ '' of '' @ str_nat triggered_frames;
                                s4 = s3\<lparr>set_timestamps := set_timestamps s3 @ [txt]\<rparr>
                            in case recordingThread s4 of
                                 None \<Rightarrow> Some (Inl AttributeError)
                               | Some th \<Rightarrow>
                                   Some (Inr (s4\<lparr>recording := None,
                                                recordingThread := None\<rparr>))))))"

section \<open>What a capture produces\<close>

text \<open>
  Whether \<open>cv2.putText\<close> accepts the array at an address, the store after it has drawn
  there, and whether the overlays of an iteration can be drawn: their target is the frame
  that post-processing hands on.
\<close>

definition drawable_at :: "addr \<Rightarrow> camera \<Rightarrow> bool" where
  "drawable_at a s = (case deref (heap s) a of None \<Rightarrow> False | Some img \<Rightarrow> contiguous img)"

definition draw :: "addr \<Rightarrow> string \<Rightarrow> int \<Rightarrow> int \<Rightarrow> camera \<Rightarrow> camera" where
  "draw a txt x y s = s\<lparr>heap := (heap s)[a := burn txt x y (heap s ! a)]\<rparr>"

definition drawable :: "event \<Rightarrow> camera \<Rightarrow> bool" where
  "drawable ev s = drawable_at (fst (post_process ev s)) (snd (post_process ev s))"

text \<open>
  The state in which \<open>grab_frame\<close> returns when both overlays can be drawn: the steps
  of \<open>grab_frame_body\<close> with the drawing done.
\<close>

definition grabbed :: "formats \<Rightarrow> event \<Rightarrow> camera \<Rightarrow> camera" where
  "grabbed fmt ev s =
    (let s1 = s\<lparr>frame_dts := record_dt (dtime ev) (frame_dts s)\<rparr>;
         fr = current_rate (frame_dts s1);
         (frame, s2) = post_process ev s1;
         s3 = draw frame (strftime fmt (dtime ev)) (width s2 div 20) (height s2 div 20) s2;
         s4 = (case remote ev of
                 None \<Rightarrow> s3
               | Some speed \<Rightarrow>
                   draw frame (speed @ '' m/s'') (17 * width s3 div 20) (height s3 div 20) s3)
     in if \<not> flag ev then
          s4\<lparr>warnings := warnings s4 @ [''Couldn't grab frame from camera!'']\<rparr>
        else
          (let s5 = s4\<lparr>dispframe := Some (frame, dtime ev, fr)\<rparr>
           in if is_saving s5 then
                s5\<lparr>recframes := recframes s5 @ [(frame, date2num_str fmt (dtime ev))],
                   new_frame_signals := new_frame_signals s5 + 1\<rparr>
              else s5))"

text \<open>
  The frame of an iteration whose read and conversion both succeed: the converted array
  with the overlays of this iteration burnt in. \<open>None\<close> when the read reported failure
  or the conversion raised.
\<close>

definition burnt_in :: "formats \<Rightarrow> camera \<Rightarrow> event \<Rightarrow> image \<Rightarrow> image" where
  "burnt_in fmt s ev img =
    (let img1 = burn (strftime fmt (dtime ev)) (width s div 20) (height s div 20) img
     in case remote ev of
          None \<Rightarrow> img1
        | Some speed \<Rightarrow> burn (speed @ '' m/s'') (17 * width s div 20) (height s div 20) img1)"

definition captured :: "formats \<Rightarrow> camera \<Rightarrow> event \<Rightarrow> image option" where
  "captured fmt s ev =
    (if flag ev then
       (case (if color s then brg2rgb (raw ev) else brg2grayscale (raw ev)) of
          Inr img \<Rightarrow> Some (burnt_in fmt s ev img)
        | Inl e \<Rightarrow> None)
     else None)"

text \<open>The entries of a queue with the arrays they refer to.\<close>

definition queue_contents :: "image list \<Rightarrow> (addr \<times> string) list \<Rightarrow> (image option \<times> string) list" where
  "queue_contents h q = map (\<lambda>(a, t). (deref h a, t)) q"

section \<open>Sample inputs\<close>

text \<open>
  A 640 by 480 device, BGR frames as it delivers them, a read that succeeds and one that
  fails, and formats that print the microsecond count.
\<close>

definition webcam :: device where
  "webcam = \<lparr>dev_width = 640, dev_height = 480, dev_fps = 30\<rparr>"

definition bgr_frame :: "nat \<Rightarrow> image" where
  "bgr_frame n =
    \<lparr>rows = 480, cols = 640, channels = 3, contiguous = True, space = BGR, content = n,
     overlay = []\<rparr>"

definition good_read :: "nat \<Rightarrow> int \<Rightarrow> event" where
  "good_read n t =
    \<lparr>flag = True, raw = Some (bgr_frame n), dtime = t, remote = None, stop_request = False\<rparr>"

definition failed_read :: "int \<Rightarrow> event" where
  "failed_read t =
    \<lparr>flag = False, raw = None, dtime = t, remote = None, stop_request = False\<rparr>"

definition clock :: formats where
  "clock = \<lparr>strftime = (\<lambda>t. ''clock '' @ str_nat (nat t)),
            date2num_str = (\<lambda>t. ''day '' @ str_nat (nat t))\<rparr>"

definition fresh_camera :: "bool \<Rightarrow> camera" where
  "fresh_camera col = init 640 480 30 col webcam"

text \<open>
  A camera on which \<open>new_recording\<close> has succeeded and \<open>start_saving\<close> was called,
  and the same camera after a run of captures.
\<close>

definition recording_camera :: camera where
  "recording_camera =
    (case new_recording True ''videos'' ''cam0'' 0 0 (fresh_camera True) of
       Inr (r, s) \<Rightarrow> start_saving s
     | Inl e \<Rightarrow> fresh_camera True)"

definition after_captures :: "event list \<Rightarrow> camera" where
  "after_captures evs = state_of (grab_frames clock evs recording_camera)"

text \<open>
  Three consumers, given by the number of frames written during each sleep of the drain:
  one that writes nothing, one that writes a single frame during the first sleep and
  nothing afterwards, and one that writes ten frames during every sleep (a frame every
  10 ms).
\<close>

definition idle_consumer :: "nat \<Rightarrow> nat" where
  "idle_consumer k = 0"

definition one_frame_consumer :: "nat \<Rightarrow> nat" where
  "one_frame_consumer k = (if k = 0 then 1 else 0)"

definition fast_consumer :: "nat \<Rightarrow> nat" where
  "fast_consumer k = 10"

section \<open>Facts about the capture step\<close>

lemma post_process_keeps [simp]:
  "capture (snd (post_process ev s)) = capture s"
  "width (snd (post_process ev s)) = width s"
  "height (snd (post_process ev s)) = height s"
  "color (snd (post_process ev s)) = color s"
  "saving (snd (post_process ev s)) = saving s"
  "continuous (snd (post_process ev s)) = continuous s"
  "recording (snd (post_process ev s)) = recording s"
  "recordingThread (snd (post_process ev s)) = recordingThread s"
  "connected (snd (post_process ev s)) = connected s"
  "set_timestamps (snd (post_process ev s)) = set_timestamps s"
  "raised_errors (snd (post_process ev s)) = raised_errors s"
  "stdout (snd (post_process ev s)) = stdout s"
  "triggered (snd (post_process ev s)) = triggered s"
  "framerate (snd (post_process ev s)) = framerate s"
  "frame_dts (snd (post_process ev s)) = frame_dts s"
  "dispframe (snd (post_process ev s)) = dispframe s"
  "recframes (snd (post_process ev s)) = recframes s"
  "new_frame_signals (snd (post_process ev s)) = new_frame_signals s"
  "warnings (snd (post_process ev s)) = warnings s"
  by (simp_all add: post_process_def split: sum.splits)

lemma draw_keeps [simp]:
  "capture (draw a txt x y s) = capture s"
  "width (draw a txt x y s) = width s"
  "height (draw a txt x y s) = height s"
  "color (draw a txt x y s) = color s"
  "saving (draw a txt x y s) = saving s"
  "continuous (draw a txt x y s) = continuous s"
  "recording (draw a txt x y s) = recording s"
  "recordingThread (draw a txt x y s) = recordingThread s"
  "connected (draw a txt x y s) = connected s"
  "set_timestamps (draw a txt x y s) = set_timestamps s"
  "raised_errors (draw a txt x y s) = raised_errors s"
  "stdout (draw a txt x y s) = stdout s"
  "triggered (draw a txt x y s) = triggered s"
  "framerate (draw a txt x y s) = framerate s"
  "frame_dts (draw a txt x y s) = frame_dts s"
  "dispframe (draw a txt x y s) = dispframe s"
  "recframes (draw a txt x y s) = recframes s"
  "new_frame_signals (draw a txt x y s) = new_frame_signals s"
  "warnings (draw a txt x y s) = warnings s"
  "empty_frame (draw a txt x y s) = empty_frame s"
  "length (heap (draw a txt x y s)) = length (heap s)"
  by (simp_all add: draw_def)

lemma write_to_frame_eq:
  "write_to_frame a txt x y s =
     (if drawable_at a s then Inr (draw a txt x y s) else Inl CvError)"
  by (simp add: write_to_frame_def drawable_at_def draw_def putText_def deref_def
      split: option.splits)

lemma drawable_at_draw [simp]:
  "drawable_at a (draw a' txt x y s) = drawable_at a s"
  by (cases "a = a'") (auto simp: drawable_at_def draw_def deref_def burn_def)

lemma post_process_frame_dts [simp]:
  "fst (post_process ev (s\<lparr>frame_dts := dts\<rparr>)) = fst (post_process ev s)"
  "heap (snd (post_process ev (s\<lparr>frame_dts := dts\<rparr>))) = heap (snd (post_process ev s))"
  by (simp_all add: post_process_def split: sum.splits)

lemma drawable_frame_dts [simp]:
  "drawable ev (s\<lparr>frame_dts := dts\<rparr>) = drawable ev s"
  by (simp add: drawable_def drawable_at_def)

text \<open>
  \<open>grab_frame\<close> returns exactly when the overlays can be drawn; otherwise it raises
  after the window and the fallback have been updated and before anything else.
\<close>

lemma grab_frame_body_eq:
  "grab_frame_body fmt ev s =
     (if drawable ev s then Inr (grabbed fmt ev s)
      else Inl (CvError,
             snd (post_process ev (s\<lparr>frame_dts := record_dt (dtime ev) (frame_dts s)\<rparr>))))"
proof -
  have "drawable ev s =
      drawable_at (fst (post_process ev (s\<lparr>frame_dts := record_dt (dtime ev) (frame_dts s)\<rparr>)))
        (snd (post_process ev (s\<lparr>frame_dts := record_dt (dtime ev) (frame_dts s)\<rparr>)))"
    by (simp add: drawable_def drawable_at_def)
  then show ?thesis
    by (simp add: grab_frame_body_def grabbed_def Let_def case_prod_beta write_to_frame_eq
        split: option.splits)
qed

lemma grab_frame_eq:
  "capture s = Some dev \<Longrightarrow>
   grab_frame fmt ev s =
     (if drawable ev s then Inr (grabbed fmt ev s)
      else Inl (CvError,
             snd (post_process ev (s\<lparr>frame_dts := record_dt (dtime ev) (frame_dts s)\<rparr>))))"
  by (simp add: grab_frame_def grab_frame_body_eq)

lemmas grab_defs = grabbed_def Let_def case_prod_beta is_saving_def

lemma frame_dts_grabbed:
  "frame_dts (grabbed fmt ev s) = record_dt (dtime ev) (frame_dts s)"
  by (simp add: grab_defs split: option.splits)

lemma grabbed_keeps:
  "capture (grabbed fmt ev s) = capture s"
  "width (grabbed fmt ev s) = width s"
  "height (grabbed fmt ev s) = height s"
  "color (grabbed fmt ev s) = color s"
  "saving (grabbed fmt ev s) = saving s"
  "continuous (grabbed fmt ev s) = continuous s"
  "recording (grabbed fmt ev s) = recording s"
  "recordingThread (grabbed fmt ev s) = recordingThread s"
  "connected (grabbed fmt ev s) = connected s"
  "set_timestamps (grabbed fmt ev s) = set_timestamps s"
  "raised_errors (grabbed fmt ev s) = raised_errors s"
  "stdout (grabbed fmt ev s) = stdout s"
  "triggered (grabbed fmt ev s) = triggered s"
  "framerate (grabbed fmt ev s) = framerate s"
  by (simp_all add: grab_defs split: option.splits)

lemma captured_grabbed:
  "captured fmt (grabbed fmt' ev' s) ev = captured fmt s ev"
  by (simp add: captured_def burnt_in_def Let_def grabbed_keeps
      split: sum.splits option.splits)

lemma heap_draw_last:
  "heap s = h @ [img] \<Longrightarrow>
   heap (draw (length h) txt x y s) = h @ [burn txt x y img]"
  by (simp add: draw_def)

lemma post_process_converted:
  "(if color s then brg2rgb (raw ev) else brg2grayscale (raw ev)) = Inr img \<Longrightarrow>
   fst (post_process ev s) = length (heap s) \<and>
   heap (snd (post_process ev s)) = heap s @ [img] \<and>
   empty_frame (snd (post_process ev s)) = length (heap s)"
  by (simp add: post_process_def)

text \<open>A capture that succeeds allocates one array and, while saving, queues it.\<close>

lemma grabbed_captured:
  assumes "captured fmt s ev = Some img"
  shows "heap (grabbed fmt ev s) = heap s @ [img]"
    and "empty_frame (grabbed fmt ev s) = length (heap s)"
    and "dispframe (grabbed fmt ev s) =
           Some (length (heap s), dtime ev, current_rate (record_dt (dtime ev) (frame_dts s)))"
    and "recframes (grabbed fmt ev s) =
           (if saving s then recframes s @ [(length (heap s), date2num_str fmt (dtime ev))]
            else recframes s)"
proof -
  from assms obtain img0 where
    ok: "flag ev" and
    conv: "(if color s then brg2rgb (raw ev) else brg2grayscale (raw ev)) = Inr img0" and
    img: "img = burnt_in fmt s ev img0"
    by (auto simp: captured_def split: if_splits sum.splits)
  let ?s1 = "s\<lparr>frame_dts := record_dt (dtime ev) (frame_dts s)\<rparr>"
  have pp: "fst (post_process ev ?s1) = length (heap s)"
    "heap (snd (post_process ev ?s1)) = heap s @ [img0]"
    "empty_frame (snd (post_process ev ?s1)) = length (heap s)"
    using post_process_converted [of ?s1 ev img0] conv by simp_all
  show "heap (grabbed fmt ev s) = heap s @ [img]"
    using ok pp img
    by (simp add: grab_defs burnt_in_def heap_draw_last split: option.splits)
  show "empty_frame (grabbed fmt ev s) = length (heap s)"
    using ok pp by (simp add: grab_defs split: option.splits)
  show "dispframe (grabbed fmt ev s) =
           Some (length (heap s), dtime ev, current_rate (record_dt (dtime ev) (frame_dts s)))"
    using ok pp by (simp add: grab_defs split: option.splits)
  show "recframes (grabbed fmt ev s) =
           (if saving s then recframes s @ [(length (heap s), date2num_str fmt (dtime ev))]
            else recframes s)"
    using ok pp by (simp add: grab_defs split: option.splits)
qed


lemma failed_grabbed:
  "\<not> flag ev \<Longrightarrow>
   dispframe (grabbed fmt ev s) = dispframe s \<and>
   recframes (grabbed fmt ev s) = recframes s \<and>
   new_frame_signals (grabbed fmt ev s) = new_frame_signals s \<and>
   warnings (grabbed fmt ev s) = warnings s @ [''Couldn't grab frame from camera!'']"
  by (simp add: grab_defs split: option.splits)

lemma record_dt_bounded:
  "length dts \<le> 100 \<Longrightarrow>
   record_dt t dts = (if length dts < 100 then dts else tl dts) @ [t] \<and>
   length (record_dt t dts) \<le> 100"
  by (cases dts) (auto simp: record_dt_def Let_def)

lemma rate_grabbed:
  "flag ev \<Longrightarrow> map_option (snd \<circ> snd) (dispframe (grabbed fmt ev s)) =
     Some (current_rate (record_dt (dtime ev) (frame_dts s)))"
  by (simp add: grab_defs split: option.splits)

lemma captured_drawable:
  "captured fmt s ev = Some img \<Longrightarrow> drawable ev s"
  by (auto simp: captured_def drawable_def drawable_at_def post_process_def deref_def
      brg2rgb_def brg2grayscale_def cvtColor_def split: if_splits sum.splits option.splits)

section \<open>A read that fails\<close>

text \<open>
  When the fallback frame can be drawn on, a failed read in a running loop is dropped:
  \<open>grab_frame\<close> emits the warning and returns without assigning the display slot,
  without appending to the record queue and without emitting \<open>sig_new_frame\<close>, and the
  loop is still running after the iteration.
\<close>

lemma failed_read_dropped_when_drawable:
  assumes "capture s = Some dev" and "continuous s = Some True" and "\<not> flag ev"
    and "drawable ev s" and "\<not> stop_request ev"
  shows "grab_frame fmt ev s = Inr (grabbed fmt ev s)"
    and "warnings (grabbed fmt ev s) = warnings s @ [''Couldn't grab frame from camera!'']"
    and "dispframe (grabbed fmt ev s) = dispframe s"
    and "recframes (grabbed fmt ev s) = recframes s"
    and "new_frame_signals (grabbed fmt ev s) = new_frame_signals s"
    and "capture_loop fmt [ev] s = Pending (grabbed fmt ev s)"
    and "capture_loop fmt (ev # evs) s = capture_loop fmt evs (grabbed fmt ev s)"
  using assms
  by (simp_all add: grab_frame_eq failed_grabbed grabbed_keeps is_recording_def)

text \<open>
  Claim C7. On a freshly constructed colour camera the fallback frame is the slice built
  by \<open>__init__\<close>, which \<open>cv2.putText\<close> refuses. A first read that fails therefore
  makes \<open>grab_frame\<close> raise where the overlay is drawn, after the timestamp has gone
  into the window and before the warning: no warning is emitted, and \<open>start_capture\<close>
  is left by the exception instead of going on with the next event.
\<close>

theorem failed_first_read_ends_the_loop:
  "grab_frame fmt (failed_read 7) (fresh_camera True) =
     Inl (CvError, (fresh_camera True)\<lparr>frame_dts := [7]\<rparr>) \<and>
   warnings ((fresh_camera True)\<lparr>frame_dts := [7]\<rparr>) = [] \<and>
   start_capture fmt (failed_read 7 # evs) (fresh_camera True) =
     Raised CvError ((fresh_camera True)\<lparr>continuous := Some True, frame_dts := [7]\<rparr>)"
proof -
  have nd: "\<not> drawable (failed_read 7) ((fresh_camera True)\<lparr>continuous := c\<rparr>)" for c
    by (simp add: drawable_def drawable_at_def post_process_def failed_read_def
        fresh_camera_def init_def brg2rgb_def cvtColor_def deref_def first_channel_def)
  have pp: "snd (post_process (failed_read 7) s) = s" for s
    by (simp add: post_process_def failed_read_def brg2rgb_def brg2grayscale_def cvtColor_def)
  have "grab_frame fmt (failed_read 7) ((fresh_camera True)\<lparr>continuous := c\<rparr>) =
      Inl (CvError, (fresh_camera True)\<lparr>continuous := c, frame_dts := [7]\<rparr>)" for c
    using grab_frame_eq [of "(fresh_camera True)\<lparr>continuous := c\<rparr>" webcam fmt "failed_read 7"]
      nd [of c]
    by (simp add: pp) (simp add: fresh_camera_def init_def failed_read_def record_dt_def)
  from this [of None] this [of "Some True"] show ?thesis
    by (simp add: start_capture_def is_recording_def)
      (simp add: fresh_camera_def init_def)
qed

section \<open>Facts about the record queue\<close>

lemma get_recframe_Cons:
  "recframes s = x # xs \<Longrightarrow> get_recframe s = (Some x, s\<lparr>recframes := xs\<rparr>)"
  by (simp add: get_recframe_def)

lemma get_recframe_Nil:
  "recframes s = [] \<Longrightarrow> get_recframe s = (None, s)"
  by (simp add: get_recframe_def)

lemma read_all_Nil: "recframes s = [] \<Longrightarrow> read_all s = ([], s)"
  by (subst read_all.simps) (simp add: get_recframe_Nil)

lemma read_all_Cons:
  "recframes s = x # xs \<Longrightarrow>
   read_all s = (x # fst (read_all (s\<lparr>recframes := xs\<rparr>)), snd (read_all (s\<lparr>recframes := xs\<rparr>)))"
  by (subst read_all.simps) (simp add: get_recframe_Cons case_prod_beta)

lemma read_all_queue:
  "recframes s = q \<Longrightarrow> fst (read_all s) = q \<and> recframes (snd (read_all s)) = []"
proof (induction q arbitrary: s)
  case Nil
  then show ?case by (simp add: read_all_Nil)
next
  case (Cons x xs)
  have "recframes (s\<lparr>recframes := xs\<rparr>) = xs" by simp
  from Cons.IH [OF this] Cons.prems show ?case
    by (simp add: read_all_Cons)
qed


section \<open>The record queue is first in, first out\<close>

lemma deref_append:
  "a < length h \<Longrightarrow> deref (h @ h') a = deref h a"
  by (simp add: deref_def nth_append)

lemma queue_contents_append_heap:
  "list_all (\<lambda>(a, t). a < length h) q \<Longrightarrow> queue_contents (h @ h') q = queue_contents h q"
  by (induction q) (auto simp: queue_contents_def deref_append)

lemma queue_contents_snoc:
  "queue_contents (h @ [img]) (q @ [(length h, t)]) = queue_contents (h @ [img]) q @ [(Some img, t)]"
  by (simp add: queue_contents_def deref_def)

lemma grab_frames_queue:
  assumes "capture s = Some dev" and "saving s"
    and "list_all (\<lambda>(a, t). a < length (heap s)) (recframes s)"
    and "list_all (\<lambda>ev. captured fmt s ev \<noteq> None) evs"
  shows "\<exists>s'. grab_frames fmt evs s = Inr s' \<and>
     queue_contents (heap s') (recframes s') =
       queue_contents (heap s) (recframes s) @
       map (\<lambda>ev. (captured fmt s ev, date2num_str fmt (dtime ev))) evs"
  using assms
proof (induction evs arbitrary: s)
  case Nil
  then show ?case by simp
next
  case (Cons ev evs)
  let ?s1 = "grabbed fmt ev s"
  from Cons.prems(4) obtain img where img: "captured fmt s ev = Some img"
    by auto
  have heap1: "heap ?s1 = heap s @ [img]"
    and queue1: "recframes ?s1 = recframes s @ [(length (heap s), date2num_str fmt (dtime ev))]"
    using grabbed_captured [OF img] Cons.prems(2) by simp_all
  have wf1: "list_all (\<lambda>(a, t). a < length (heap ?s1)) (recframes ?s1)"
    using Cons.prems(3) by (auto simp: heap1 queue1 list_all_iff)
  have rest: "list_all (\<lambda>ev. captured fmt ?s1 ev \<noteq> None) evs"
    using Cons.prems(4) by (simp add: captured_grabbed)
  from Cons.IH [of ?s1, OF _ _ wf1 rest] Cons.prems(1,2)
  obtain s' where run: "grab_frames fmt evs ?s1 = Inr s'"
    and q: "queue_contents (heap s') (recframes s') =
       queue_contents (heap ?s1) (recframes ?s1) @
       map (\<lambda>ev. (captured fmt ?s1 ev, date2num_str fmt (dtime ev))) evs"
    by (auto simp: grabbed_keeps)
  have "queue_contents (heap ?s1) (recframes ?s1) =
      queue_contents (heap s) (recframes s) @ [(captured fmt s ev, date2num_str fmt (dtime ev))]"
    using Cons.prems(3)
    by (simp add: heap1 queue1 queue_contents_snoc queue_contents_append_heap img)
  with run q Cons.prems(1) captured_drawable [OF img] show ?case
    by (simp add: grab_frame_eq captured_grabbed)
qed

text \<open>
  Claim C8. While saving, a run of captures that all succeed (the read delivers a frame
  and the conversion accepts it) appends to the record queue, in order, one entry per
  capture: the frame of that capture with its formatted timestamp. Reading the queue to
  completion with \<open>get_recframe\<close> yields what was queued before followed by exactly
  these entries, in submission order; on the emptied queue \<open>get_recframe\<close> returns
  \<open>None\<close> and changes nothing.
\<close>

theorem record_queue_is_fifo:
  assumes "capture s = Some dev" and "saving s"
    and "list_all (\<lambda>(a, t). a < length (heap s)) (recframes s)"
    and "list_all (\<lambda>ev. captured fmt s ev \<noteq> None) evs"
  shows "\<exists>s'. grab_frames fmt evs s = Inr s' \<and>
     queue_contents (heap s') (fst (read_all s')) =
       queue_contents (heap s) (recframes s) @
       map (\<lambda>ev. (captured fmt s ev, date2num_str fmt (dtime ev))) evs \<and>
     get_recframe (snd (read_all s')) = (None, snd (read_all s'))"
proof -
  from grab_frames_queue [OF assms] obtain s' where
    "grab_frames fmt evs s = Inr s'" and
    "queue_contents (heap s') (recframes s') =
       queue_contents (heap s) (recframes s) @
       map (\<lambda>ev. (captured fmt s ev, date2num_str fmt (dtime ev))) evs"
    by blast
  moreover have "fst (read_all s') = recframes s'" "recframes (snd (read_all s')) = []"
    using read_all_queue [of s' "recframes s'"] by simp_all
  ultimately show ?thesis
    by (simp add: get_recframe_Nil)
qed


theorem record_queue_is_fifo_witness:
  "capture (start_saving (fresh_camera True)) = Some webcam \<and>
   saving (start_saving (fresh_camera True)) \<and>
   list_all (\<lambda>(a, t). a < length (heap (start_saving (fresh_camera True))))
     (recframes (start_saving (fresh_camera True))) \<and>
   list_all (\<lambda>ev. captured clock (start_saving (fresh_camera True)) ev \<noteq> None)
     [good_read 1 5, good_read 2 6] \<and>
   (\<exists>s'. grab_frames clock [good_read 1 5, good_read 2 6] (start_saving (fresh_camera True)) = Inr s' \<and>
      map (\<lambda>(img, t). (map_option content img, t)) (queue_contents (heap s') (fst (read_all s'))) =
        [(Some 1, ''day 5''), (Some 2, ''day 6'')] \<and>
      get_recframe (snd (read_all s')) = (None, snd (read_all s')))"
proof -
  let ?s = "start_saving (fresh_camera True)"
  have h: "capture ?s = Some webcam" "saving ?s"
    "list_all (\<lambda>(a, t). a < length (heap ?s)) (recframes ?s)"
    "list_all (\<lambda>ev. captured clock ?s ev \<noteq> None) [good_read 1 5, good_read 2 6]"
    by (simp_all add: start_saving_def fresh_camera_def init_def captured_def good_read_def
        brg2rgb_def cvtColor_def bgr_frame_def)
  have c: "map (\<lambda>(img, t). (map_option content img, t))
      (map (\<lambda>ev. (captured clock ?s ev, date2num_str clock (dtime ev)))
         [good_read 1 5, good_read 2 6]) = [(Some 1, ''day 5''), (Some 2, ''day 6'')]"
    by (simp add: start_saving_def fresh_camera_def init_def captured_def good_read_def
        brg2rgb_def cvtColor_def bgr_frame_def burnt_in_def burn_def clock_def str_nat.simps)
  from record_queue_is_fifo [OF h] obtain s' where
    "grab_frames clock [good_read 1 5, good_read 2 6] ?s = Inr s'"
    "queue_contents (heap s') (fst (read_all s')) =
       queue_contents (heap ?s) (recframes ?s) @
       map (\<lambda>ev. (captured clock ?s ev, date2num_str clock (dtime ev)))
         [good_read 1 5, good_read 2 6]"
    "get_recframe (snd (read_all s')) = (None, snd (read_all s'))"
    by blast
  moreover have "queue_contents (heap ?s) (recframes ?s) = []"
    by (simp add: start_saving_def fresh_camera_def init_def queue_contents_def)
  ultimately show ?thesis using h c by simp
qed

section \<open>The display slot\<close>

lemma published_grabbed:
  "flag ev \<Longrightarrow> dispframe (grabbed fmt ev s) =
     Some (case captured fmt s ev of Some img \<Rightarrow> length (heap s) | None \<Rightarrow> empty_frame s,
           dtime ev, current_rate (record_dt (dtime ev) (frame_dts s)))"
  by (simp add: grab_defs captured_def post_process_def split: option.splits sum.splits)

text \<open>
  Claim C9. After a capture with a successful read whose overlays can be drawn (the only
  captures that reach the slot), whatever the slot held before, \<open>get_dispframe\<close>
  returns the frame, timestamp and rate of that capture and leaves the slot empty; a
  second \<open>get_dispframe\<close> returns \<open>None\<close> and changes nothing. The slot is an
  optional value, so it never holds more than one.
\<close>

theorem display_slot_take:
  assumes "capture s = Some dev" and "flag ev" and "drawable ev s"
  shows "\<exists>s1. grab_frame fmt ev s = Inr s1 \<and>
     fst (get_dispframe s1) =
       Some (case captured fmt s ev of Some img \<Rightarrow> length (heap s) | None \<Rightarrow> empty_frame s,
             dtime ev, current_rate (frame_dts s1)) \<and>
     dispframe (snd (get_dispframe s1)) = None \<and>
     get_dispframe (snd (get_dispframe s1)) = (None, snd (get_dispframe s1))"
  using assms
  by (simp add: grab_frame_eq get_dispframe_def published_grabbed frame_dts_grabbed)

theorem display_slot_take_witness:
  "capture ((fresh_camera True)\<lparr>dispframe := Some (0, 5, 0)\<rparr>) = Some webcam \<and>
   flag (good_read 2 6) \<and>
   drawable (good_read 2 6) ((fresh_camera True)\<lparr>dispframe := Some (0, 5, 0)\<rparr>) \<and>
   (\<exists>s1. grab_frame clock (good_read 2 6) ((fresh_camera True)\<lparr>dispframe := Some (0, 5, 0)\<rparr>) = Inr s1 \<and>
      fst (get_dispframe s1) = Some (1, 6, 0) \<and>
      dispframe (snd (get_dispframe s1)) = None \<and>
      get_dispframe (snd (get_dispframe s1)) = (None, snd (get_dispframe s1)))"
proof -
  let ?s = "(fresh_camera True)\<lparr>dispframe := Some (0, 5, 0)\<rparr>"
  have cap: "\<exists>img. captured clock ?s (good_read 2 6) = Some img"
    by (simp add: captured_def good_read_def fresh_camera_def init_def brg2rgb_def
        cvtColor_def bgr_frame_def)
  then have dr: "drawable (good_read 2 6) ?s"
    using captured_drawable by blast
  have h: "capture ?s = Some webcam" "flag (good_read 2 6)"
    by (simp_all add: fresh_camera_def init_def good_read_def)
  have run: "grab_frame clock (good_read 2 6) ?s = Inr (grabbed clock (good_read 2 6) ?s)"
    using h(1) dr by (simp add: grab_frame_eq)
  have addr: "(case captured clock ?s (good_read 2 6) of
                 Some img \<Rightarrow> length (heap ?s) | None \<Rightarrow> empty_frame ?s) = 1"
    using cap by (auto simp: fresh_camera_def init_def)
  have rate: "current_rate (frame_dts (grabbed clock (good_read 2 6) ?s)) = 0"
    by (simp add: frame_dts_grabbed fresh_camera_def init_def record_dt_def
        current_rate_def)
  have "dtime (good_read 2 6) = 6"
    by (simp add: good_read_def)
  with display_slot_take [OF h dr, of clock] run addr rate h dr show ?thesis
    by auto
qed

section \<open>The fallback frame\<close>

text \<open>
  Claim C6. On a freshly constructed camera the frame substituted when the conversion
  fails is the array of \<open>__init__\<close>: it has one channel when colour is configured and
  three when grayscale is configured. On a colour camera a first capture whose read fails
  raises: the one-channel slice cannot be drawn on.
\<close>

theorem fallback_frame_of_fresh_camera:
  "fst (post_process (failed_read 0) (fresh_camera True)) = 0 \<and>
   map_option channels (deref (heap (fresh_camera True)) 0) = Some 1 \<and>
   fst (post_process (failed_read 0) (fresh_camera False)) = 0 \<and>
   map_option channels (deref (heap (fresh_camera False)) 0) = Some 3 \<and>
   map_sum fst (\<lambda>s. map_option (\<lambda>img. (channels img, length (overlay img)))
                    (deref (heap s) (empty_frame s)))
     (grab_frame fmt (failed_read 0) (fresh_camera True)) = Inl CvError"
  by (simp add: post_process_def failed_read_def fresh_camera_def init_def brg2rgb_def
      brg2grayscale_def cvtColor_def deref_def zeros_def first_channel_def grab_frame_def
      grab_frame_body_def Let_def write_to_frame_def putText_def burn_def)

section \<open>The rolling rate\<close>

lemma captured_good_read:
  "\<exists>img. captured fmt s (good_read n t) = Some img"
  by (simp add: captured_def good_read_def brg2rgb_def brg2grayscale_def cvtColor_def
      bgr_frame_def)

lemma sample_events [simp]:
  "flag (good_read n t)" "dtime (good_read n t) = t"
  "\<not> flag (failed_read t)" "dtime (failed_read t) = t"
  by (simp_all add: good_read_def failed_read_def)

lemma grab_frame_good_read:
  "capture s = Some dev \<Longrightarrow>
   grab_frame fmt (good_read n t) s = Inr (grabbed fmt (good_read n t) s)"
  using captured_good_read [of fmt s n t] captured_drawable [of fmt s "good_read n t"]
  by (auto simp: grab_frame_eq)

text \<open>
  After a capture that succeeded the fallback is the converted frame, which can be drawn
  on: a read that fails next does not raise.
\<close>

lemma captured_contiguous:
  "captured fmt s ev = Some img \<Longrightarrow> contiguous img"
  by (auto simp: captured_def burnt_in_def burn_def brg2rgb_def brg2grayscale_def cvtColor_def
      Let_def split: if_splits sum.splits option.splits)

lemma drawable_failed_read:
  "drawable (failed_read t) s = drawable_at (empty_frame s) s"
  by (simp add: drawable_def post_process_def failed_read_def brg2rgb_def brg2grayscale_def
      cvtColor_def)

lemma fallback_drawable_after_capture:
  assumes "captured fmt s ev = Some img"
  shows "drawable (failed_read t) ((grabbed fmt ev s)\<lparr>frame_dts := dts\<rparr>)"
  using grabbed_captured(1,2) [OF assms] captured_contiguous [OF assms]
  by (simp add: drawable_failed_read drawable_at_def deref_def)

text \<open>
  Claim C1. The rate the code computes is \<open>0\<close> for fewer than two samples or a span
  that is not positive, and otherwise the number of samples \<open>n\<close> (not the number
  \<open>n - 1\<close> of intervals) divided by the span in seconds. For two samples at 0.0 s and
  1.0 s it is 2, both for the formula alone and for the rate a camera publishes after two
  captures at these instants.
\<close>

theorem current_rate_counts_samples:
  "current_rate dts =
     (if length dts < 2 \<or> last dts - hd dts \<le> 0 then 0
      else of_nat (length dts) / (of_int (last dts - hd dts) / 1000000)) \<and>
   current_rate [0, 1000000] = 2 \<and>
   map_sum id (\<lambda>s. map_option (snd \<circ> snd) (dispframe s))
     (grab_frames fmt [good_read 1 0, good_read 2 1000000] (fresh_camera True)) = Inr (Some 2)"
proof -
  have "current_rate dts =
     (if length dts < 2 \<or> last dts - hd dts \<le> 0 then 0
      else of_nat (length dts) / (of_int (last dts - hd dts) / 1000000))"
    by (auto simp: current_rate_def Let_def)
  moreover have "current_rate [0, 1000000] = 2"
    by (simp add: current_rate_def)
  moreover have "map_sum id (\<lambda>s. map_option (snd \<circ> snd) (dispframe s))
     (grab_frames fmt [good_read 1 0, good_read 2 1000000] (fresh_camera True)) = Inr (Some 2)"
  proof -
    have c: "capture (fresh_camera True) = Some webcam"
      by (simp add: fresh_camera_def init_def)
    have run: "grab_frames fmt [good_read 1 0, good_read 2 1000000] (fresh_camera True) =
        Inr (grabbed fmt (good_read 2 1000000) (grabbed fmt (good_read 1 0) (fresh_camera True)))"
      using grab_frame_good_read [OF c, of fmt 1 0]
        grab_frame_good_read [of "grabbed fmt (good_read 1 0) (fresh_camera True)" webcam fmt
          2 1000000] c
      by (simp add: grabbed_keeps)
    have "frame_dts (fresh_camera True) = []"
      by (simp add: fresh_camera_def init_def)
    then have "map_option (snd \<circ> snd)
        (dispframe (grabbed fmt (good_read 2 1000000)
           (grabbed fmt (good_read 1 0) (fresh_camera True)))) = Some 2"
      by (simp add: rate_grabbed frame_dts_grabbed record_dt_def current_rate_def)
    with run show ?thesis
      by (simp only: map_sum.simps id_apply)
  qed
  ultimately show ?thesis by blast
qed

text \<open>
  Claim C10. Every call of \<open>grab_frame\<close> on a camera with a capture device, whose
  window holds at most 100 timestamps, appends the arrival timestamp to the window, after
  dropping the oldest entry of a full window, so that the window again holds at most 100.
  This is so whether the read succeeded or failed, and whether the call returns or raises:
  the statement is about the state the call leaves behind. When the call returns after a
  successful read, the published rate is the rate of that window, which holds the
  timestamps of the dropped frames as well; in every other case the display slot is as
  before.
\<close>

theorem window_updated_on_every_call:
  assumes "capture s = Some dev" and "length (frame_dts s) \<le> 100"
  shows "frame_dts (state_of (grab_frame fmt ev s)) =
       (if length (frame_dts s) < 100 then frame_dts s else tl (frame_dts s)) @ [dtime ev] \<and>
     length (frame_dts (state_of (grab_frame fmt ev s))) \<le> 100 \<and>
     (case grab_frame fmt ev s of
        Inl (e, s') \<Rightarrow> dispframe s' = dispframe s
      | Inr s' \<Rightarrow>
          if flag ev
          then map_option (snd \<circ> snd) (dispframe s') = Some (current_rate (frame_dts s'))
          else dispframe s' = dispframe s)"
  using assms record_dt_bounded [of "frame_dts s" "dtime ev"]
  by (simp add: grab_frame_eq state_of_def frame_dts_grabbed rate_grabbed failed_grabbed)

theorem window_updated_on_every_call_witness:
  "frame_dts (state_of (grab_frame clock (failed_read 0) (fresh_camera True))) = [0] \<and>
   (\<exists>s1 s2 s3.
      capture (fresh_camera True) = Some webcam \<and>
      length (frame_dts (fresh_camera True)) \<le> 100 \<and>
      grab_frame clock (good_read 11 0) (fresh_camera True) = Inr s1 \<and>
      frame_dts s1 = [0] \<and>
      grab_frame clock (failed_read 1000000) s1 = Inr s2 \<and>
      frame_dts s2 = [0, 1000000] \<and> dispframe s2 = dispframe s1 \<and>
      grab_frame clock (good_read 12 2000000) s2 = Inr s3 \<and>
      frame_dts s3 = [0, 1000000, 2000000] \<and>
      map_option (snd \<circ> snd) (dispframe s3) = Some (3 / 2) \<and>
      (\<exists>s4. grab_frame clock (failed_read 1000000) (s1\<lparr>frame_dts := replicate 100 0\<rparr>) =
              Inr s4 \<and>
         frame_dts s4 = replicate 99 0 @ [1000000] \<and> length (frame_dts s4) = 100))"
proof -
  let ?s0 = "fresh_camera True"
  let ?s1 = "grabbed clock (good_read 11 0) ?s0"
  let ?s2 = "grabbed clock (failed_read 1000000) ?s1"
  let ?s3 = "grabbed clock (good_read 12 2000000) ?s2"
  let ?full = "?s1\<lparr>frame_dts := replicate 100 0\<rparr>"
  let ?s4 = "grabbed clock (failed_read 1000000) ?full"
  obtain img where img: "captured clock ?s0 (good_read 11 0) = Some img"
    using captured_good_read by blast
  have h0: "capture ?s0 = Some webcam" "length (frame_dts ?s0) \<le> 100" "frame_dts ?s0 = []"
    by (simp_all add: fresh_camera_def init_def)
  have run1: "grab_frame clock (good_read 11 0) ?s0 = Inr ?s1"
    by (rule grab_frame_good_read [OF h0(1)])
  have h1: "capture ?s1 = Some webcam" "frame_dts ?s1 = [0]" "length (frame_dts ?s1) \<le> 100"
    by (simp_all add: grabbed_keeps frame_dts_grabbed h0 record_dt_def)
  have dr1: "drawable (failed_read 1000000) ?s1"
    using fallback_drawable_after_capture [OF img, of 1000000 "frame_dts ?s1"] by simp
  have run2: "grab_frame clock (failed_read 1000000) ?s1 = Inr ?s2"
    using h1(1) dr1 by (simp add: grab_frame_eq)
  have h2: "capture ?s2 = Some webcam" "frame_dts ?s2 = [0, 1000000]"
    "length (frame_dts ?s2) \<le> 100"
    by (simp_all add: grabbed_keeps frame_dts_grabbed h0 record_dt_def)
  have run3: "grab_frame clock (good_read 12 2000000) ?s2 = Inr ?s3"
    by (rule grab_frame_good_read [OF h2(1)])
  have hf: "capture ?full = Some webcam" "length (frame_dts ?full) \<le> 100"
    by (simp_all add: grabbed_keeps h0)
  have run4: "grab_frame clock (failed_read 1000000) ?full = Inr ?s4"
    using hf(1) fallback_drawable_after_capture [OF img, of 1000000 "replicate 100 0"]
    by (simp add: grab_frame_eq)
  have a: "frame_dts (state_of (grab_frame clock (failed_read 0) ?s0)) = [0]"
    using window_updated_on_every_call [OF h0(1,2), of clock "failed_read 0"]
    by (simp add: h0(3))
  have b: "frame_dts ?s2 = [0, 1000000] \<and> dispframe ?s2 = dispframe ?s1"
    using window_updated_on_every_call [OF h1(1,3), of clock "failed_read 1000000"]
    by (simp add: run2 state_of_def h1(2))
  have c0: "frame_dts ?s3 = [0, 1000000, 2000000]"
    using window_updated_on_every_call [OF h2(1,3), of clock "good_read 12 2000000"]
    by (simp add: run3 state_of_def h2(2))
  have "map_option (snd \<circ> snd) (dispframe ?s3) = Some (current_rate (frame_dts ?s3))"
    using window_updated_on_every_call [OF h2(1,3), of clock "good_read 12 2000000"]
    by (simp add: run3)
  then have c: "map_option (snd \<circ> snd) (dispframe ?s3) = Some (3 / 2)"
    by (simp add: c0 current_rate_def)
  have d: "frame_dts ?s4 = replicate 99 0 @ [1000000] \<and> length (frame_dts ?s4) = 100"
    using window_updated_on_every_call [OF hf, of clock "failed_read 1000000"]
    by (simp add: run4 state_of_def)
  from a b c0 c d run1 run2 run3 run4 h0(1,2) h1(2) show ?thesis
    by simp
qed

section \<open>Facts about the drain\<close>

lemma recording_camera_eq:
  "recording_camera =
    (fresh_camera True)\<lparr>
      recording := Some \<lparr>rec_dir = ''videos'', rec_name = ''cam0'', rec_counter = 0,
                         rec_resolution = (640, 480), rec_rate = 30, rec_color = True,
                         opened = True, write_count = 0\<rparr>,
      saving := True, recordingThread := Some Running, connected := True,
      stdout := [''FPS was not successfully read out and set'']\<rparr>"
  by (simp add: recording_camera_def new_recording_def get_dispframe_def get_resolution_def
      start_saving_def fresh_camera_def init_def webcam_def)

lemma fold_grab_keeps:
  "recording (fold (grabbed fmt) evs s) = recording s"
  "recordingThread (fold (grabbed fmt) evs s) = recordingThread s"
  "connected (fold (grabbed fmt) evs s) = connected s"
  "set_timestamps (fold (grabbed fmt) evs s) = set_timestamps s"
  "raised_errors (fold (grabbed fmt) evs s) = raised_errors s"
  by (induction evs arbitrary: s) (simp_all add: grabbed_keeps)

lemma fold_grab_queue_length:
  "saving s \<Longrightarrow> list_all (\<lambda>ev. captured fmt s ev \<noteq> None) evs \<Longrightarrow>
   length (recframes (fold (grabbed fmt) evs s)) = length (recframes s) + length evs"
proof (induction evs arbitrary: s)
  case Nil
  then show ?case by simp
next
  case (Cons ev evs)
  from Cons.prems(2) obtain img where "captured fmt s ev = Some img" by auto
  from grabbed_captured(4) [OF this] Cons.prems(1)
  have "length (recframes (grabbed fmt ev s)) = Suc (length (recframes s))"
    by simp
  with Cons.IH [of "grabbed fmt ev s"] Cons.prems
  show ?case by (simp add: grabbed_keeps captured_grabbed)
qed

text \<open>A run of captures that all succeed returns, one \<open>grabbed\<close> after the other.\<close>

lemma grab_frames_captured:
  "capture s = Some dev \<Longrightarrow> list_all (\<lambda>ev. captured fmt s ev \<noteq> None) evs \<Longrightarrow>
   grab_frames fmt evs s = Inr (fold (grabbed fmt) evs s)"
proof (induction evs arbitrary: s)
  case Nil
  then show ?case by simp
next
  case (Cons ev evs)
  from Cons.prems(2) obtain img where img: "captured fmt s ev = Some img" by auto
  from Cons.IH [of "grabbed fmt ev s"] Cons.prems captured_drawable [OF img]
  show ?case by (simp add: grab_frame_eq grabbed_keeps captured_grabbed)
qed

lemma recorder_write_queue:
  "recframes (recorder_write s) = tl (recframes s)"
  by (simp add: recorder_write_def get_recframe_def split: list.splits)

lemma recorder_write_count:
  "recording s = Some r \<Longrightarrow>
   recording (recorder_write s) =
     Some (r\<lparr>write_count := write_count r + (if recframes s = [] then 0 else 1)\<rparr>)"
  by (simp add: recorder_write_def get_recframe_def split: list.splits)

lemma recorder_write_keeps:
  "recordingThread (recorder_write s) = recordingThread s"
  "set_timestamps (recorder_write s) = set_timestamps s"
  "raised_errors (recorder_write s) = raised_errors s"
  by (simp_all add: recorder_write_def get_recframe_def split: list.splits)

lemma consume_queue: "recframes (consume n s) = drop n (recframes s)"
  by (induction n arbitrary: s) (simp_all add: recorder_write_queue drop_Suc)

lemma consume_count:
  "recording s = Some r \<Longrightarrow>
   recording (consume n s) =
     Some (r\<lparr>write_count := write_count r + min n (length (recframes s))\<rparr>)"
proof (induction n arbitrary: s r)
  case 0
  then show ?case by simp
next
  case (Suc n)
  show ?case
    using Suc.IH [OF recorder_write_count [OF Suc.prems]]
    by (cases "recframes s") (simp_all add: recorder_write_queue)
qed

lemma consume_keeps:
  "recordingThread (consume n s) = recordingThread s"
  "set_timestamps (consume n s) = set_timestamps s"
  "raised_errors (consume n s) = raised_errors s"
  by (induction n arbitrary: s) (simp_all add: recorder_write_keeps)



lemma drain_Suc:
  "recording s = Some r \<Longrightarrow> recframes s \<noteq> [] \<Longrightarrow>
   drain consumer (Suc fuel) k last_count dc s =
     (let s1 = s\<lparr>stdout := stdout s @
                 [''Writing: '' @ str_nat (write_count r) @ '' of '' @ str_nat triggered_frames,
                  str_nat (length (recframes s))]\<rparr>;
          dc' = (if last_count = write_count r then dc + 1 else dc)
      in if dc' = 10 then
           Some (Inr (s1\<lparr>raised_errors := raised_errors s1 @ [''Frames cannot be saved.'']\<rparr>))
         else drain consumer fuel (Suc k) last_count dc' (consume (consumer k) s1))"
  by (simp add: drain.simps get_recframesize_def get_write_count_def Let_def)

lemma drain_0: "drain consumer 0 k last_count dc s = None"
  by (simp add: drain.simps)

lemma drain_empty:
  "recframes s = [] \<Longrightarrow> drain consumer (Suc fuel) k last_count dc s = Some (Inr s)"
  by (simp add: drain.simps get_recframesize_def)

text \<open>Once the write count differs from \<open>last_count\<close> and the consumer has stopped,
  the loop neither counts nor leaves.\<close>

lemma drain_stuck:
  assumes "recording s = Some r" and "write_count r \<noteq> last_count" and "recframes s \<noteq> []"
    and "\<forall>j. consumer (k + j) = 0" and "dc \<noteq> 10"
  shows "drain consumer fuel k last_count dc s = None"
  using assms
proof (induction fuel arbitrary: k s)
  case 0
  then show ?case by (simp add: drain_0)
next
  case (Suc fuel)
  let ?s1 = "s\<lparr>stdout := stdout s @
                 [''Writing: '' @ str_nat (write_count r) @ '' of '' @ str_nat triggered_frames,
                  str_nat (length (recframes s))]\<rparr>"
  from Suc.prems(4) have here: "consumer k = 0" and later: "\<forall>j. consumer (Suc k + j) = 0"
    by (metis add.right_neutral, metis add_Suc_shift)
  have "drain consumer fuel (Suc k) last_count dc ?s1 = None"
    using Suc.IH [of ?s1 "Suc k"] Suc.prems(1,2,3,5) later by simp
  with Suc.prems here show ?case
    by (simp add: drain_Suc Let_def)
qed


text \<open>While the write count stays at \<open>last_count\<close> and the queue is not empty, the
  counter goes up by one per poll; the poll that takes it to 10 raises the error.\<close>

lemma drain_stalled:
  assumes "recording s = Some r" and "write_count r = last_count" and "recframes s \<noteq> []"
    and "dc \<le> 9" and "n = nat (9 - dc)"
  shows "drain (\<lambda>j. 0) n k last_count dc s = None \<and>
    (\<exists>s'. drain (\<lambda>j. 0) (Suc n + fuel) k last_count dc s = Some (Inr s') \<and>
       raised_errors s' = raised_errors s @ [''Frames cannot be saved.''] \<and>
       recording s' = recording s \<and> recordingThread s' = recordingThread s \<and>
       set_timestamps s' = set_timestamps s \<and> recframes s' = recframes s)"
  using assms
proof (induction n arbitrary: k s dc)
  case 0
  then have "dc = 9" by simp
  with 0 show ?case
    by (simp add: drain_Suc drain_0 Let_def)
next
  case (Suc n)
  let ?s1 = "s\<lparr>stdout := stdout s @
                 [''Writing: '' @ str_nat (write_count r) @ '' of '' @ str_nat triggered_frames,
                  str_nat (length (recframes s))]\<rparr>"
  from Suc.prems have dc: "dc + 1 \<le> 9" "n = nat (9 - (dc + 1))" "dc + 1 \<noteq> 10"
    by simp_all
  have s1: "recording ?s1 = Some r" "recframes ?s1 \<noteq> []"
    using Suc.prems by simp_all
  from Suc.IH [OF s1(1) Suc.prems(2) s1(2) dc(1,2), of "Suc k"]
  have "drain (\<lambda>j. 0) n (Suc k) last_count (dc + 1) ?s1 = None \<and>
    (\<exists>s'. drain (\<lambda>j. 0) (Suc n + fuel) (Suc k) last_count (dc + 1) ?s1 = Some (Inr s') \<and>
       raised_errors s' = raised_errors s @ [''Frames cannot be saved.''] \<and>
       recording s' = recording s \<and> recordingThread s' = recordingThread s \<and>
       set_timestamps s' = set_timestamps s \<and> recframes s' = recframes s)"
    by simp
  with Suc.prems(1-3) dc(3) show ?case
    by (simp add: drain_Suc Let_def)
qed


lemma stop_saving_hangs:
  assumes "recording s = Some r" and "connected s" and "2 \<le> length (recframes s)"
    and "consumer 0 = 1" and "\<forall>j. consumer (Suc j) = 0"
  shows "stop_saving now consumer fuel s = None"
proof (cases fuel)
  case 0
  with assms(1,2) show ?thesis
    by (simp add: stop_saving_def drain_0)
next
  case (Suc f)
  let ?s2 = "s\<lparr>saving := False, connected := False\<rparr>"
  let ?s1 = "?s2\<lparr>stdout := stdout ?s2 @
                 [''Writing: '' @ str_nat (write_count r) @ '' of '' @ str_nat triggered_frames,
                  str_nat (length (recframes ?s2))]\<rparr>"
  have rec: "recording ?s1 = Some r" and q: "2 \<le> length (recframes ?s1)"
    using assms(1,3) by simp_all
  have "recording (consume 1 ?s1) =
      Some (r\<lparr>write_count := write_count r + min 1 (length (recframes ?s1))\<rparr>)"
    by (rule consume_count [OF rec])
  then have rec': "recording (consume 1 ?s1) = Some (r\<lparr>write_count := write_count r + 1\<rparr>)"
    using q by (simp add: min_def)
  have q': "recframes (consume 1 ?s1) \<noteq> []"
    using q by (cases "recframes s") (auto simp: recorder_write_queue)
  have "drain consumer f (Suc 0) (write_count r) 0 (consume 1 ?s1) = None"
    by (rule drain_stuck [OF rec' _ q']) (use assms(5) in simp_all)
  moreover have "recframes ?s2 \<noteq> []" using assms(3) by auto
  ultimately have "drain consumer (Suc f) 0 (write_count r) (- 1) ?s2 = None"
    using assms(1,4) by (simp add: drain_Suc Let_def)
  with assms(1,2) Suc show ?thesis
    by (simp add: stop_saving_def)
qed

lemma str_nat_digit: "n < 10 \<Longrightarrow> str_nat n = [''0123456789'' ! n]"
  by (simp add: str_nat.simps)

lemma stop_saving_all_written:
  assumes "recording s = Some r" and "connected s" and "recordingThread s = Some th"
    and "recframes s \<noteq> []" and "length (recframes s) \<le> consumer 0"
  shows "\<exists>s'. stop_saving now consumer (Suc (Suc fuel)) s = Some (Inr s') \<and>
     set_timestamps s' = set_timestamps s @
       [now @ [CHR '' '', CHR 0x09, CHR '' ''] @ ''All frames written: '' @
        str_nat (write_count r + length (recframes s)) @ '' of 0''] \<and>
     raised_errors s' = raised_errors s \<and> recording s' = None"
proof -
  let ?s2 = "s\<lparr>saving := False, connected := False\<rparr>"
  let ?s1 = "?s2\<lparr>stdout := stdout ?s2 @
                 [''Writing: '' @ str_nat (write_count r) @ '' of '' @ str_nat triggered_frames,
                  str_nat (length (recframes ?s2))]\<rparr>"
  let ?s3 = "consume (consumer 0) ?s1"
  have rec: "recording ?s1 = Some r" using assms(1) by simp
  have q3: "recframes ?s3 = []"
    using assms(5) by (simp add: consume_queue)
  have rec3: "recording ?s3 =
      Some (r\<lparr>write_count := write_count r + length (recframes s)\<rparr>)"
    using consume_count [OF rec, of "consumer 0"] assms(5) by (simp add: min_def)
  have dr: "drain consumer (Suc (Suc fuel)) 0 (write_count r) (- 1) ?s2 = Some (Inr ?s3)"
    using assms(1,4) q3 by (simp add: drain_Suc [of ?s2 r] drain_empty Let_def)
  have keep: "recordingThread ?s3 = Some th" "set_timestamps ?s3 = set_timestamps s"
    "raised_errors ?s3 = raised_errors s"
    using assms(3) by (simp_all add: consume_keeps)
  show ?thesis
    using assms(1,2) dr rec3 keep
    by (simp add: stop_saving_def get_write_count_def Let_def triggered_frames_def str_nat_digit)
qed

lemma stop_saving_stalled:
  assumes "recording s = Some r" and "connected s" and "recordingThread s = Some th"
    and "recframes s \<noteq> []"
  shows "stop_saving now (\<lambda>j. 0) 10 s = None \<and>
    (\<exists>s'. stop_saving now (\<lambda>j. 0) (11 + fuel) s = Some (Inr s') \<and>
       raised_errors s' = raised_errors s @ [''Frames cannot be saved.''] \<and>
       recording s' = None)"
proof -
  let ?s2 = "s\<lparr>saving := False, connected := False\<rparr>"
  have rec: "recording ?s2 = Some r" and q: "recframes ?s2 \<noteq> []"
    using assms(1,4) by simp_all
  from drain_stalled [OF rec refl q, of "- 1" 10 0 fuel]
  obtain s' where none: "drain (\<lambda>j. 0) 10 0 (write_count r) (- 1) ?s2 = None"
    and some: "drain (\<lambda>j. 0) (11 + fuel) 0 (write_count r) (- 1) ?s2 = Some (Inr s')"
    and s': "raised_errors s' = raised_errors s @ [''Frames cannot be saved.'']"
      "recording s' = Some r" "recordingThread s' = Some th"
    using assms(1,3) by auto
  show ?thesis
    using assms(1,2) none some s'
    by (simp add: stop_saving_def get_write_count_def Let_def)
qed


lemma captured_sample:
  "\<exists>img. captured clock recording_camera (good_read n t) = Some img"
  by (rule captured_good_read)

lemma after_captures_good_reads:
  assumes "list_all (\<lambda>ev. captured clock recording_camera ev \<noteq> None) evs"
  shows "recording (after_captures evs) =
      Some \<lparr>rec_dir = ''videos'', rec_name = ''cam0'', rec_counter = 0,
            rec_resolution = (640, 480), rec_rate = 30, rec_color = True,
            opened = True, write_count = 0\<rparr>"
    and "connected (after_captures evs)"
    and "recordingThread (after_captures evs) = Some Running"
    and "set_timestamps (after_captures evs) = []"
    and "raised_errors (after_captures evs) = []"
    and "length (recframes (after_captures evs)) = length evs"
proof -
  have "capture recording_camera = Some webcam"
    by (simp add: recording_camera_eq fresh_camera_def init_def)
  from grab_frames_captured [OF this assms]
  have eq: "after_captures evs = fold (grabbed clock) evs recording_camera"
    by (simp add: after_captures_def state_of_def)
  show "length (recframes (after_captures evs)) = length evs"
    using fold_grab_queue_length [OF _ assms]
    by (simp add: eq) (simp add: recording_camera_eq fresh_camera_def init_def)
  show "recording (after_captures evs) =
      Some \<lparr>rec_dir = ''videos'', rec_name = ''cam0'', rec_counter = 0,
            rec_resolution = (640, 480), rec_rate = 30, rec_color = True,
            opened = True, write_count = 0\<rparr>"
    by (simp add: eq fold_grab_keeps recording_camera_eq fresh_camera_def init_def)
  show "connected (after_captures evs)"
    by (simp add: eq fold_grab_keeps recording_camera_eq fresh_camera_def init_def)
  show "recordingThread (after_captures evs) = Some Running"
    by (simp add: eq fold_grab_keeps recording_camera_eq fresh_camera_def init_def)
  show "set_timestamps (after_captures evs) = []"
    by (simp add: eq fold_grab_keeps recording_camera_eq fresh_camera_def init_def)
  show "raised_errors (after_captures evs) = []"
    by (simp add: eq fold_grab_keeps recording_camera_eq fresh_camera_def init_def)
qed

text \<open>
  Claim C2. The loop compares the write count with the value read once before the loop
  and never resets the counter. With three frames queued and a consumer that writes one
  frame during the first sleep and then stops, the write count differs from that first
  value at every later poll, the counter stays where it is and \<open>stop_saving\<close> does not
  return, whatever the number of polls. With a consumer that never writes, the counter
  starts at \<open>-1\<close>: ten polls do not end the loop, the eleventh raises
  \<open>Frames cannot be saved.\<close>
\<close>

theorem stall_counter_compares_with_first_count:
  "stop_saving now one_frame_consumer fuel
     (after_captures [good_read 11 1, good_read 12 2, good_read 13 3]) = None \<and>
   stop_saving now idle_consumer 10
     (after_captures [good_read 11 1, good_read 12 2, good_read 13 3]) = None \<and>
   map_option (map_sum id raised_errors)
     (stop_saving now idle_consumer 11
        (after_captures [good_read 11 1, good_read 12 2, good_read 13 3])) =
     Some (Inr [''Frames cannot be saved.''])"
proof -
  let ?s = "after_captures [good_read 11 1, good_read 12 2, good_read 13 3]"
  have ok: "list_all (\<lambda>ev. captured clock recording_camera ev \<noteq> None)
      [good_read 11 1, good_read 12 2, good_read 13 3]"
    by (simp add: captured_sample)
  note s = after_captures_good_reads [OF ok]
  have idle: "idle_consumer = (\<lambda>j. 0)"
    by (simp add: idle_consumer_def fun_eq_iff)
  have "stop_saving now one_frame_consumer fuel ?s = None"
    by (rule stop_saving_hangs [OF s(1) s(2)]) (simp_all add: s(6) one_frame_consumer_def)
  moreover have q: "recframes ?s \<noteq> []"
    using s(6) by auto
  from stop_saving_stalled [OF s(1) s(2) s(3) q, of now 0]
  have "stop_saving now idle_consumer 10 ?s = None \<and>
     map_option (map_sum id raised_errors) (stop_saving now idle_consumer 11 ?s) =
       Some (Inr [''Frames cannot be saved.''])"
    unfolding idle by (auto simp: s(5))
  ultimately show ?thesis by blast
qed

text \<open>
  Claim C5. With five frames queued and a consumer that writes them all during the first
  sleep, \<open>stop_saving\<close> returns after two polls and the summary it emits through
  \<open>sig_set_timestamp\<close> ends in \<open>5 of 0\<close>: the count of expected frames is the
  constant \<open>triggered_frames = 0\<close>.
\<close>

theorem summary_counts_against_zero:
  "map_option (map_sum id set_timestamps)
     (stop_saving now fast_consumer (Suc (Suc fuel))
        (after_captures [good_read 11 1, good_read 12 2, good_read 13 3, good_read 14 4,
                         good_read 15 5])) =
     Some (Inr [now @ [CHR '' '', CHR 0x09, CHR '' ''] @ ''All frames written: 5 of 0''])"
proof -
  let ?s = "after_captures [good_read 11 1, good_read 12 2, good_read 13 3, good_read 14 4,
                            good_read 15 5]"
  have ok: "list_all (\<lambda>ev. captured clock recording_camera ev \<noteq> None)
      [good_read 11 1, good_read 12 2, good_read 13 3, good_read 14 4, good_read 15 5]"
    by (simp add: captured_sample)
  note s = after_captures_good_reads [OF ok]
  have q: "recframes ?s \<noteq> []"
    using s(6) by auto
  from stop_saving_all_written [OF s(1) s(2) s(3) q, of fast_consumer now fuel]
  show ?thesis
    by (auto simp: s(4) s(6) str_nat_digit fast_consumer_def)
qed

section \<open>A recorder that does not open\<close>

lemma not_saving_grabbed:
  "\<not> saving s \<Longrightarrow>
   recframes (grabbed fmt ev s) = recframes s \<and>
   new_frame_signals (grabbed fmt ev s) = new_frame_signals s"
  by (simp add: grab_defs split: option.splits)

text \<open>
  A camera that is not saving queues nothing, however the captures end.
\<close>

lemma not_saving_grab_frames:
  "\<not> saving s \<Longrightarrow>
   recframes (state_of (grab_frames fmt evs s)) = recframes s \<and>
   new_frame_signals (state_of (grab_frames fmt evs s)) = new_frame_signals s"
proof (induction evs arbitrary: s)
  case Nil
  then show ?case by (simp add: state_of_def)
next
  case (Cons ev evs)
  show ?case
  proof (cases "capture s")
    case None
    then show ?thesis by (simp add: grab_frame_def state_of_def)
  next
    case (Some dev)
    show ?thesis
    proof (cases "drawable ev s")
      case True
      with Some Cons.IH [of "grabbed fmt ev s"] Cons.prems show ?thesis
        by (simp add: grab_frame_eq grabbed_keeps not_saving_grabbed)
    next
      case False
      with Some show ?thesis
        by (simp add: grab_frame_eq state_of_def)
    qed
  qed
qed

text \<open>
  Claim C3 as stated asks that no recorder be retained. On a fresh camera a recorder that
  does not open is nevertheless stored in \<open>recording\<close>.
\<close>

theorem failed_open_keeps_recorder:
  "new_recording False ''videos'' ''cam0'' 0 0 (fresh_camera True) =
   Inr (Some False,
        (fresh_camera True)\<lparr>
          recording := Some \<lparr>rec_dir = ''videos'', rec_name = ''cam0'', rec_counter = 0,
                             rec_resolution = (640, 480), rec_rate = 30, rec_color = True,
                             opened = False, write_count = 0\<rparr>,
          raised_errors := [''Video-recording could not be started.''],
          stdout := [''FPS was not successfully read out and set'']\<rparr>)"
  by (simp add: new_recording_def get_dispframe_def get_resolution_def fresh_camera_def
      init_def webcam_def)

text \<open>
  Claim C3, amended. On a camera with a capture device that is not saving, when the
  recorder does not open, \<open>new_recording\<close> returns \<open>False\<close> and emits
  \<open>Video-recording could not be started.\<close> through \<open>sig_raise_error\<close>; the recorder
  it keeps in \<open>recording\<close> is not open; no thread is started and the signal is not
  connected; the camera is still not saving, and any run of captures that follows,
  whether it returns or raises, leaves the record queue as it was and emits no
  \<open>sig_new_frame\<close>.
\<close>

theorem failed_open_stays_idle:
  assumes "capture s = Some dev" and "\<not> saving s"
  shows "\<exists>s'. new_recording False save_dir cam_name file_counter fr s = Inr (Some False, s') \<and>
     raised_errors s' = raised_errors s @ [''Video-recording could not be started.''] \<and>
     map_option opened (recording s') = Some False \<and>
     recordingThread s' = recordingThread s \<and>
     connected s' = connected s \<and>
     \<not> saving s' \<and>
     recframes s' = recframes s \<and>
     recframes (state_of (grab_frames fmt evs s')) = recframes s \<and>
     new_frame_signals (state_of (grab_frames fmt evs s')) = new_frame_signals s"
proof -
  have "\<exists>s'. new_recording False save_dir cam_name file_counter fr s = Inr (Some False, s') \<and>
      raised_errors s' = raised_errors s @ [''Video-recording could not be started.''] \<and>
      map_option opened (recording s') = Some False \<and>
      recordingThread s' = recordingThread s \<and> connected s' = connected s \<and>
      saving s' = saving s \<and> recframes s' = recframes s \<and>
      new_frame_signals s' = new_frame_signals s \<and> capture s' = capture s"
    using assms(1)
    by (simp add: new_recording_def get_dispframe_def get_resolution_def Let_def
        split: option.splits prod.splits)
  then obtain s' where run:
    "new_recording False save_dir cam_name file_counter fr s = Inr (Some False, s')"
    and s': "raised_errors s' = raised_errors s @ [''Video-recording could not be started.'']"
      "map_option opened (recording s') = Some False"
      "recordingThread s' = recordingThread s" "connected s' = connected s"
      "saving s' = saving s" "recframes s' = recframes s"
      "new_frame_signals s' = new_frame_signals s" "capture s' = capture s"
    by blast
  from not_saving_grab_frames [of s' fmt evs] s' assms
  have "recframes (state_of (grab_frames fmt evs s')) = recframes s"
    "new_frame_signals (state_of (grab_frames fmt evs s')) = new_frame_signals s"
    by simp_all
  with run s' assms(2) show ?thesis by simp
qed

theorem failed_open_stays_idle_witness:
  "capture (fresh_camera True) = Some webcam \<and> \<not> saving (fresh_camera True) \<and>
   (\<exists>s'. new_recording False ''videos'' ''cam0'' 0 0 (fresh_camera True) = Inr (Some False, s') \<and>
      raised_errors s' = [''Video-recording could not be started.''] \<and>
      recordingThread s' = None \<and> \<not> connected s' \<and> \<not> saving s' \<and>
      recframes (state_of (grab_frames clock [failed_read 1, good_read 11 2] s')) = [] \<and>
      new_frame_signals (state_of (grab_frames clock [failed_read 1, good_read 11 2] s')) = 0)"
proof -
  have h: "capture (fresh_camera True) = Some webcam" "\<not> saving (fresh_camera True)"
    by (simp_all add: fresh_camera_def init_def)
  have "raised_errors (fresh_camera True) = []" "recordingThread (fresh_camera True) = None"
    "\<not> connected (fresh_camera True)" "recframes (fresh_camera True) = []"
    "new_frame_signals (fresh_camera True) = 0"
    by (simp_all add: fresh_camera_def init_def)
  with failed_open_stays_idle [OF h, of "''videos''" "''cam0''" 0 0 clock
      "[failed_read 1, good_read 11 2]"] h
  show ?thesis by auto
qed

section \<open>Stopping what is stopped\<close>

text \<open>
  Claim C4 as stated asks that stopping a recording be a no-op when no recording exists.
  On a fresh camera \<open>stop_saving\<close> raises \<open>AttributeError\<close>.
\<close>

theorem stop_saving_without_session_raises:
  "stop_saving ''now'' idle_consumer 0 (fresh_camera True) = Some (Inl AttributeError)"
  by (simp add: stop_saving_def fresh_camera_def init_def)

text \<open>
  Claim C4, amended. When the continuation flag is already \<open>False\<close>, \<open>stop_capture\<close>
  (and \<open>stop_recording\<close>) changes nothing and raises nothing, with or without a
  recording. When no recording exists, \<open>stop_saving\<close> raises \<open>AttributeError\<close>,
  whatever the continuation flag is and whatever the consumer does.
\<close>

theorem stop_when_stopped:
  "(continuous s = Some False \<longrightarrow> stop_capture s = s \<and> stop_recording s = s) \<and>
   (recording s' = None \<longrightarrow> stop_saving now consumer fuel s' = Some (Inl AttributeError))"
  by (simp add: stop_capture_def stop_recording_def stop_saving_def)

theorem stop_when_stopped_witness:
  "continuous (stop_capture recording_camera) = Some False \<and>
   recording (stop_capture recording_camera) \<noteq> None \<and>
   stop_capture (stop_capture recording_camera) = stop_capture recording_camera \<and>
   stop_recording (stop_capture recording_camera) = stop_capture recording_camera \<and>
   recording (fresh_camera True) = None \<and>
   continuous (fresh_camera True) = None \<and>
   stop_saving ''now'' idle_consumer 0 (fresh_camera True) = Some (Inl AttributeError)"
proof -
  have h: "continuous (stop_capture recording_camera) = Some False"
    "recording (stop_capture recording_camera) \<noteq> None"
    "recording (fresh_camera True) = None" "continuous (fresh_camera True) = None"
    by (simp_all add: stop_capture_def recording_camera_eq fresh_camera_def init_def)
  from stop_when_stopped [of "stop_capture recording_camera" "fresh_camera True" "''now''"
      idle_consumer 0] h
  show ?thesis by simp
qed

end
